theory Spec2Isabelle
  imports Main "HOL-Library.Word"
begin

section \<open>The Darwin port of the lwIP system layer: \<open>sys_arch.c\<close>\<close>

text \<open>
  The file defines two functions, \<open>sys_now\<close> and \<open>sys_init\<close>. Both are embedded here as
  functions on the part of the host that they can see.

  \<^item> \<open>clock_t\<close> is Darwin's \<open>unsigned long\<close>, 64 bits wide on its LP64 targets;
    \<open>u32_t\<close> is lwIP's unsigned 32-bit integer.
  \<^item> \<open>clock()\<close> and \<open>CLOCKS_PER_SEC\<close> come from the host's \<open>time.h\<close>, which is not part
    of the repository. They are fields of the record \<open>host\<close>: the value that \<open>clock()\<close>
    returns at the moment of the call, and the constant, which the C standard gives the
    type \<open>clock_t\<close>. The record is extensible, so a \<open>'a host_scheme\<close> stands for the two
    fields together with any further program and host state.
  \<^item> Unsigned division by zero is undefined behaviour in C. It is the only way in which
    the body of \<open>sys_now\<close> can go wrong, and the model makes it the value
    \<open>Inl DivisionByZero\<close>.
\<close>

type_synonym clock_t = "64 word"
type_synonym u32_t = "32 word"

datatype fault = DivisionByZero

record host =
  clock :: clock_t
  CLOCKS_PER_SEC :: clock_t

text \<open>
  \<^verbatim>\<open>
  u32_t sys_now(void) {
      clock_t i = clock() / (CLOCKS_PER_SEC / 1000);
      return (u32_t)i;
  }
  \<close>
  The literal \<open>1000\<close> is converted to \<open>clock_t\<close>, both divisions are unsigned 64-bit
  divisions, and the cast keeps the low 32 bits.
\<close>

definition sys_now :: "'a host_scheme \<Rightarrow> fault + u32_t" where
  "sys_now h =
     (let d = CLOCKS_PER_SEC h div 1000 in
      if d = 0 then Inl DivisionByZero
      else let i = clock h div d in Inr (ucast i))"

text \<open>
  \<^verbatim>\<open>
  void sys_init(void) { }
  \<close>
  A \<open>void\<close> function without parameters: its only result is the state after the call.
  The body is empty, so that state is the one it was called in.
\<close>

definition sys_init :: "'s \<Rightarrow> fault + 's" where
  "sys_init s = Inr s"

subsection \<open>The specification's reading of the clock\<close>

text \<open>
  Following the specification's words (``process CPU time scaled to milliseconds''):
  a counter of \<open>c\<close> ticks, at \<open>cps\<close> ticks per second, stands for \<open>c / cps\<close> seconds,
  that is \<open>1000 * c / cps\<close> milliseconds, rounded down to a whole number.
\<close>

definition spec_elapsed_ms :: "nat \<Rightarrow> nat \<Rightarrow> nat" where
  "spec_elapsed_ms cps c = (c * 1000) div cps"

subsection \<open>Sequences of calls\<close>

text \<open>
  \<open>sys_init_times n\<close> calls \<open>sys_init\<close> \<open>n\<close> times in a row, stopping at the first fault.
\<close>

fun sys_init_times :: "nat \<Rightarrow> 's \<Rightarrow> fault + 's" where
  "sys_init_times 0 s = Inr s"
| "sys_init_times (Suc n) s =
     (case sys_init s of Inl e \<Rightarrow> Inl e | Inr s' \<Rightarrow> sys_init_times n s')"

text \<open>
  A client of the layer calls the two functions in some order while the host's counter
  moves on between the calls. \<open>run\<close> executes such a sequence from a host state and
  collects the readings of the \<open>sys_now\<close> calls, in order; a fault ends the run.
\<close>

datatype event =
    Call_sys_init
  | Call_sys_now
  | Host_clock clock_t  \<comment> \<open>the host's counter takes a new value\<close>

fun run :: "event list \<Rightarrow> 'a host_scheme \<Rightarrow> fault + u32_t list" where
  "run [] h = Inr []"
| "run (Call_sys_init # es) h =
     (case sys_init h of Inl e \<Rightarrow> Inl e | Inr h' \<Rightarrow> run es h')"
| "run (Call_sys_now # es) h =
     (case sys_now h of
        Inl e \<Rightarrow> Inl e
      | Inr r \<Rightarrow> (case run es h of Inl e \<Rightarrow> Inl e | Inr rs \<Rightarrow> Inr (r # rs)))"
| "run (Host_clock c # es) h = run es (h\<lparr>clock := c\<rparr>)"


section \<open>Arithmetic of the reading\<close>

lemma div_1000_eq_0_iff: "(x div 1000 = 0) = (unat x < 1000)" for x :: clock_t
proof -
  have "(x div 1000 = 0) = (unat (x div 1000) = 0)"
    by (simp add: unat_eq_zero)
  also have "\<dots> = (unat x div 1000 = 0)"
    by (simp add: unat_div)
  also have "\<dots> = (unat x < 1000)"
    by (simp add: div_eq_0_iff)
  finally show ?thesis .
qed

lemma sys_now_Inr_iff:
  "sys_now h = Inr r \<longleftrightarrow>
     1000 \<le> unat (CLOCKS_PER_SEC h) \<and>
     r = ucast (clock h div (CLOCKS_PER_SEC h div 1000))"
  by (auto simp: sys_now_def Let_def div_1000_eq_0_iff)

lemma sys_now_Inl_iff:
  "sys_now h = Inl e \<longleftrightarrow> unat (CLOCKS_PER_SEC h) < 1000"
  by (cases e) (auto simp: sys_now_def Let_def div_1000_eq_0_iff)

lemma unat_reading:
  "unat (ucast (c div (p div 1000) :: clock_t) :: u32_t) =
     (unat c div (unat p div 1000)) mod 2 ^ 32"
  by (simp add: unsigned_ucast_eq unat_div take_bit_eq_mod)

lemma sys_now_unat:
  assumes "sys_now h = Inr r"
  shows "unat r = (unat (clock h) div (unat (CLOCKS_PER_SEC h) div 1000)) mod 2 ^ 32"
  using assms by (simp add: sys_now_Inr_iff unat_reading)

lemma spec_elapsed_ms_exact:
  assumes "0 < p" "1000 dvd p"
  shows "spec_elapsed_ms p c = c div (p div 1000)"
proof -
  from assms obtain k where k: "p = 1000 * k" and "0 < k"
    by (auto elim: dvdE)
  then show ?thesis
    by (simp add: spec_elapsed_ms_def mult.commute)
qed

lemma uint_reading_diff:
  fixes a b :: u32_t
  assumes "unat a = m mod 2 ^ 32" "unat b = n mod 2 ^ 32"
  shows "uint (b - a) = (int n - int m) mod 2 ^ 32"
proof -
  have a: "uint a = int m mod 2 ^ 32"
    using assms(1) by (simp add: uint_nat zmod_int)
  have b: "uint b = int n mod 2 ^ 32"
    using assms(2) by (simp add: uint_nat zmod_int)
  have "uint (b - a) = (uint b - uint a) mod 2 ^ 32"
    by (simp add: uint_word_ariths)
  also have "\<dots> = (int n - int m) mod 2 ^ 32"
    unfolding a b by (rule mod_diff_eq)
  finally show ?thesis .
qed

lemma quot_step:
  fixes c c' d :: clock_t
  assumes "0 < unat d" and "unat c' = unat c + unat d"
  shows "unat (c' div d) = unat c div unat d + 1"
  using assms by (simp add: unat_div div_add_self2)

lemma u32_succ:
  fixes r r' :: u32_t
  assumes "unat r = q mod 2 ^ 32" "unat r' = (q + 1) mod 2 ^ 32"
  shows "r' = r + 1"
proof -
  have "unat (r + 1) = (unat r + 1) mod 2 ^ 32"
    by (simp add: unat_word_ariths)
  also have "\<dots> = (q + 1) mod 2 ^ 32"
    unfolding assms(1) by (rule mod_add_left_eq)
  finally show ?thesis
    using assms(2) by (simp only: word_unat_eq_iff)
qed

lemma quot_advance_lower:
  fixes c d k n :: nat
  assumes "0 < k" and "n * k \<le> d"
  shows "c div k + n \<le> (c + d) div k"
proof -
  have "c div k + n = (c + n * k) div k"
    using assms(1) by simp
  also have "\<dots> \<le> (c + d) div k"
    using assms(2) by (intro div_le_mono) simp
  finally show ?thesis .
qed

lemma quot_advance_upper:
  fixes c d k n :: nat
  assumes "0 < k" and "d \<le> n * k"
  shows "(c + d) div k \<le> c div k + n"
proof -
  have "(c + d) div k \<le> (c + n * k) div k"
    using assms(2) by (intro div_le_mono) simp
  also have "\<dots> = c div k + n"
    using assms(1) by simp
  finally show ?thesis .
qed

lemma uint_diff_small:
  fixes a b :: u32_t
  assumes a: "unat a = m mod 2 ^ 32" and b: "unat b = n mod 2 ^ 32"
    and lo: "m + l \<le> n" and hi: "n \<le> m + u" and u: "u \<le> 500"
  shows "int l \<le> uint (b - a) \<and> uint (b - a) \<le> int u"
proof -
  have eq: "uint (b - a) = (int n - int m) mod 2 ^ 32"
    using a b by (rule uint_reading_diff)
  have "0 \<le> int n - int m" and "int n - int m < 2 ^ 32"
    using lo hi u by simp_all
  then have "(int n - int m) mod 2 ^ 32 = int n - int m"
    by (rule mod_pos_pos_trivial)
  with eq lo hi show ?thesis by simp
qed

lemma run_two_readings:
  "run [Call_sys_now, Host_clock c', Call_sys_now] h = Inr [a, b] \<longleftrightarrow>
     sys_now h = Inr a \<and> sys_now (h\<lparr>clock := c'\<rparr>) = Inr b"
  by (auto simp: sys_init_def split: sum.splits)


section \<open>The millisecond clock \<open>sys_now\<close>\<close>

text \<open>
  C1 (as amended). On every host whose \<open>CLOCKS_PER_SEC\<close> is a positive multiple of 1000
  (Darwin's is 1000000), and for every value of the counter \<open>clock()\<close>, \<open>sys_now\<close>
  returns the truncation to \<open>u32_t\<close> of the counter divided by \<open>CLOCKS_PER_SEC / 1000\<close>,
  and this reading is the number of milliseconds that the counter stands for,
  \<open>spec_elapsed_ms\<close>, taken modulo \<open>2 ^ 32\<close>.
\<close>

theorem sys_now_milliseconds:
  assumes "0 < unat (CLOCKS_PER_SEC h)" and "1000 dvd unat (CLOCKS_PER_SEC h)"
  shows "sys_now h = Inr (ucast (clock h div (CLOCKS_PER_SEC h div 1000))) \<and>
         (\<exists>r. sys_now h = Inr r \<and>
              unat r = spec_elapsed_ms (unat (CLOCKS_PER_SEC h)) (unat (clock h)) mod 2 ^ 32)"
proof -
  from assms have ge: "1000 \<le> unat (CLOCKS_PER_SEC h)"
    by (auto dest: dvd_imp_le)
  then have ret: "sys_now h = Inr (ucast (clock h div (CLOCKS_PER_SEC h div 1000)))"
    by (simp add: sys_now_Inr_iff)
  have "unat (ucast (clock h div (CLOCKS_PER_SEC h div 1000)) :: u32_t) =
          spec_elapsed_ms (unat (CLOCKS_PER_SEC h)) (unat (clock h)) mod 2 ^ 32"
    using sys_now_unat [OF ret] assms by (simp only: spec_elapsed_ms_exact)
  with ret show ?thesis by blast
qed

text \<open>
  The theorem at Darwin's constant: 2500999 ticks of a microsecond are 2500 milliseconds.
\<close>

theorem sys_now_milliseconds_witness:
  "0 < unat (1000000 :: clock_t) \<and> 1000 dvd unat (1000000 :: clock_t) \<and>
   sys_now \<lparr>clock = 2500999, CLOCKS_PER_SEC = 1000000\<rparr> = Inr 2500 \<and>
   spec_elapsed_ms 1000000 2500999 = 2500"
  using sys_now_milliseconds [of "\<lparr>clock = 2500999, CLOCKS_PER_SEC = 1000000\<rparr>"]
  by (simp add: spec_elapsed_ms_def)

text \<open>
  C1 as first stated, for every value of \<open>CLOCKS_PER_SEC\<close>, does not hold. With 1024
  ticks per second the divisor \<open>CLOCKS_PER_SEC / 1000\<close> is 1, so after 2048 ticks, which
  are 2000 milliseconds, \<open>sys_now\<close> returns 2048. With 100 ticks per second the divisor
  is 0, and after 250 ticks, which are 2500 milliseconds, \<open>sys_now\<close> returns nothing.
\<close>

theorem sys_now_milliseconds_counterexample:
  "sys_now \<lparr>clock = 2048, CLOCKS_PER_SEC = 1024\<rparr> = Inr 2048 \<and>
   spec_elapsed_ms 1024 2048 = 2000 \<and>
   sys_now \<lparr>clock = 250, CLOCKS_PER_SEC = 100\<rparr> = Inl DivisionByZero \<and>
   spec_elapsed_ms 100 250 = 2500"
  by (simp add: sys_now_def spec_elapsed_ms_def)

text \<open>
  C2 (as amended). The difference of two readings follows the processor time of the
  process, which is what \<open>clock()\<close> counts, and not the real time between the calls. On
  a host whose \<open>CLOCKS_PER_SEC\<close> is a positive multiple of 1000, take a call A of
  \<open>sys_now\<close>, then an advance of the counter by \<open>d\<close> ticks, then a call B. Both calls
  return, and the unsigned 32-bit difference of B's reading and A's is never negative.
  If \<open>d\<close> is at least 90 ms and at most 500 ms of processor time, the difference is at
  least 90 and at most 500. If \<open>d\<close> is at most 89 ms of processor time, as across a sleep,
  the difference is below 90.
\<close>

theorem sys_now_elapsed_processor_time:
  assumes "0 < unat (CLOCKS_PER_SEC h)" and "1000 dvd unat (CLOCKS_PER_SEC h)"
    and "unat c' = unat (clock h) + d"
  shows "\<exists>a b. run [Call_sys_now, Host_clock c', Call_sys_now] h = Inr [a, b] \<and>
           0 \<le> uint (b - a) \<and>
           (90 * (unat (CLOCKS_PER_SEC h) div 1000) \<le> d \<and>
            d \<le> 500 * (unat (CLOCKS_PER_SEC h) div 1000) \<longrightarrow>
              90 \<le> uint (b - a) \<and> uint (b - a) \<le> 500) \<and>
           (d \<le> 89 * (unat (CLOCKS_PER_SEC h) div 1000) \<longrightarrow> uint (b - a) < 90)"
proof -
  let ?D = "CLOCKS_PER_SEC h div 1000"
  let ?k = "unat (CLOCKS_PER_SEC h) div 1000"
  let ?a = "ucast (clock h div ?D) :: u32_t"
  let ?b = "ucast (c' div ?D) :: u32_t"
  let ?m = "unat (clock h) div ?k"
  let ?n = "(unat (clock h) + d) div ?k"
  from assms(1,2) have ge: "1000 \<le> unat (CLOCKS_PER_SEC h)"
    by (auto dest: dvd_imp_le)
  then have k: "0 < ?k" by simp
  have ra: "sys_now h = Inr ?a"
    using ge by (simp add: sys_now_Inr_iff)
  have rb: "sys_now (h\<lparr>clock := c'\<rparr>) = Inr ?b"
    using ge by (simp add: sys_now_Inr_iff)
  have run: "run [Call_sys_now, Host_clock c', Call_sys_now] h = Inr [?a, ?b]"
    using ra rb by (simp only: run_two_readings)
  have ua: "unat ?a = ?m mod 2 ^ 32"
    using sys_now_unat [OF ra] .
  have ub: "unat ?b = ?n mod 2 ^ 32"
    using sys_now_unat [OF rb] assms(3) by simp
  have long: "90 \<le> uint (?b - ?a) \<and> uint (?b - ?a) \<le> 500"
    if "90 * ?k \<le> d \<and> d \<le> 500 * ?k"
  proof -
    have "?m + 90 \<le> ?n" using k that by (intro quot_advance_lower) simp_all
    moreover have "?n \<le> ?m + 500" using k that by (intro quot_advance_upper) simp_all
    ultimately show ?thesis
      using uint_diff_small [OF ua ub, of 90 500] by simp
  qed
  have short: "uint (?b - ?a) < 90" if "d \<le> 89 * ?k"
  proof -
    have "?m + 0 \<le> ?n" using k by (intro quot_advance_lower) simp_all
    moreover have "?n \<le> ?m + 89" using k that by (intro quot_advance_upper) simp_all
    ultimately show ?thesis
      using uint_diff_small [OF ua ub, of 0 89] by simp
  qed
  have "0 \<le> uint (?b - ?a)" by simp
  with run long short show ?thesis by blast
qed

text \<open>
  The theorem at Darwin's constant, twice: across 100 ms of computation the readings are
  5 and 105, across 40 microseconds they are 5 and 5.
\<close>

theorem sys_now_elapsed_processor_time_witness:
  "0 < unat (1000000 :: clock_t) \<and> 1000 dvd unat (1000000 :: clock_t) \<and>
   unat (105000 :: clock_t) = unat (5000 :: clock_t) + 100000 \<and>
   90 * (unat (1000000 :: clock_t) div 1000) \<le> (100000 :: nat) \<and>
   (100000 :: nat) \<le> 500 * (unat (1000000 :: clock_t) div 1000) \<and>
   run [Call_sys_now, Host_clock 105000, Call_sys_now]
       \<lparr>clock = 5000, CLOCKS_PER_SEC = 1000000\<rparr> = Inr [5, 105] \<and>
   uint (105 - 5 :: u32_t) = 100 \<and>
   unat (5040 :: clock_t) = unat (5000 :: clock_t) + 40 \<and>
   (40 :: nat) \<le> 89 * (unat (1000000 :: clock_t) div 1000) \<and>
   run [Call_sys_now, Host_clock 5040, Call_sys_now]
       \<lparr>clock = 5000, CLOCKS_PER_SEC = 1000000\<rparr> = Inr [5, 5] \<and>
   uint (5 - 5 :: u32_t) = 0"
  using sys_now_elapsed_processor_time
          [of "\<lparr>clock = 5000, CLOCKS_PER_SEC = 1000000\<rparr>" 105000 100000]
        sys_now_elapsed_processor_time
          [of "\<lparr>clock = 5000, CLOCKS_PER_SEC = 1000000\<rparr>" 5040 40]
  by (simp add: sys_now_def)

text \<open>
  C2 as first stated, for two calls around a sleep of 100 ms of real time, does not
  hold. A sleeping process uses no processor time, so the counter moves only by what the
  two calls themselves cost, here 40 microseconds; both readings are 5 and their
  difference is 0, below the 90 that the claim asks for.
\<close>

theorem sys_now_sleep_counterexample:
  "run [Call_sys_now, Host_clock 5040, Call_sys_now]
       \<lparr>clock = 5000, CLOCKS_PER_SEC = 1000000\<rparr> = Inr [5, 5] \<and>
   uint (5 - 5 :: u32_t) < 90"
  by (simp add: sys_now_def)

text \<open>
  C3 (as amended). For every value of the counter and every \<open>CLOCKS_PER_SEC\<close> of at
  least 1000, the computation of \<open>sys_now\<close> is defined and returns a \<open>u32_t\<close>; no fault
  is reachable.
\<close>

theorem sys_now_returns:
  assumes "1000 \<le> unat (CLOCKS_PER_SEC h)"
  shows "\<exists>r. sys_now h = Inr r"
  using assms by (simp add: sys_now_Inr_iff)

text \<open>The theorem at Darwin's constant and the largest value of the counter.\<close>

theorem sys_now_returns_witness:
  "1000 \<le> unat (1000000 :: clock_t) \<and>
   (\<exists>r. sys_now \<lparr>clock = 18446744073709551615, CLOCKS_PER_SEC = 1000000\<rparr> = Inr r)"
  using sys_now_returns [of "\<lparr>clock = 18446744073709551615, CLOCKS_PER_SEC = 1000000\<rparr>"]
  by simp

text \<open>
  C3 as first stated, for every value of \<open>CLOCKS_PER_SEC\<close>, does not hold. With 128
  ticks per second \<open>CLOCKS_PER_SEC / 1000\<close> is 0, and \<open>sys_now\<close> divides by zero.
\<close>

theorem sys_now_fails_counterexample:
  "sys_now \<lparr>clock = 256, CLOCKS_PER_SEC = 128\<rparr> = Inl DivisionByZero"
  by (simp add: sys_now_def)



text \<open>
  C5. Readings do not decrease: of two values of the counter, \<open>c1 \<le> c2\<close>, on one host,
  whose quotients by \<open>CLOCKS_PER_SEC / 1000\<close> both lie below \<open>2 ^ 32\<close>, the reading at
  \<open>c1\<close> is at most the reading at \<open>c2\<close>.
\<close>

theorem sys_now_monotone:
  assumes "sys_now h1 = Inr r1" and "sys_now h2 = Inr r2"
    and "CLOCKS_PER_SEC h1 = CLOCKS_PER_SEC h2"
    and "clock h1 \<le> clock h2"
    and "unat (clock h1) div (unat (CLOCKS_PER_SEC h1) div 1000) < 2 ^ 32"
    and "unat (clock h2) div (unat (CLOCKS_PER_SEC h2) div 1000) < 2 ^ 32"
  shows "r1 \<le> r2"
proof -
  let ?k = "unat (CLOCKS_PER_SEC h2) div 1000"
  have le: "unat (clock h1) div ?k \<le> unat (clock h2) div ?k"
    using assms(4) by (simp add: word_le_nat_alt div_le_mono)
  have "unat r1 = unat (clock h1) div ?k"
    using sys_now_unat [OF assms(1)] assms(3,5) by simp
  moreover have "unat r2 = unat (clock h2) div ?k"
    using sys_now_unat [OF assms(2)] assms(6) by simp
  ultimately show ?thesis
    using le by (simp add: word_le_nat_alt)
qed

text \<open>The theorem at the first and the last millisecond before the 32-bit boundary.\<close>

theorem sys_now_monotone_witness:
  "sys_now \<lparr>clock = 1999, CLOCKS_PER_SEC = 1000000\<rparr> = Inr 1 \<and>
   sys_now \<lparr>clock = 4294967295999, CLOCKS_PER_SEC = 1000000\<rparr> = Inr 4294967295 \<and>
   (1999 :: clock_t) \<le> 4294967295999 \<and>
   (1 :: u32_t) \<le> 4294967295"
  using sys_now_monotone [of "\<lparr>clock = 1999, CLOCKS_PER_SEC = 1000000\<rparr>" 1
      "\<lparr>clock = 4294967295999, CLOCKS_PER_SEC = 1000000\<rparr>" 4294967295]
  by (simp add: sys_now_def)

text \<open>
  C6. The resolution is one millisecond: where \<open>CLOCKS_PER_SEC\<close> is a positive multiple
  of 1000, a counter that grows by exactly \<open>CLOCKS_PER_SEC / 1000\<close> ticks makes the
  reading grow by exactly 1. The reading is a \<open>u32_t\<close> and so is the sum: from
  \<open>2 ^ 32 - 1\<close> the next reading is 0.
\<close>

theorem sys_now_resolution:
  fixes h :: "'a host_scheme" and h' :: "'b host_scheme"
  assumes "0 < unat (CLOCKS_PER_SEC h)" and "1000 dvd unat (CLOCKS_PER_SEC h)"
    and "CLOCKS_PER_SEC h' = CLOCKS_PER_SEC h"
    and "unat (clock h') = unat (clock h) + unat (CLOCKS_PER_SEC h) div 1000"
  shows "\<exists>r. sys_now h = Inr r \<and> sys_now h' = Inr (r + 1)"
proof -
  let ?d = "CLOCKS_PER_SEC h div 1000"
  let ?r = "ucast (clock h div ?d) :: u32_t"
  let ?r' = "ucast (clock h' div ?d) :: u32_t"
  from assms(1,2) have ge: "1000 \<le> unat (CLOCKS_PER_SEC h)"
    by (auto dest: dvd_imp_le)
  then have d: "0 < unat ?d"
    by (simp add: unat_div)
  have step: "unat (clock h') = unat (clock h) + unat ?d"
    using assms(4) by (simp add: unat_div)
  have r: "sys_now h = Inr ?r"
    using ge by (simp add: sys_now_Inr_iff)
  have r': "sys_now h' = Inr ?r'"
    using ge assms(3) by (simp add: sys_now_Inr_iff)
  have "unat ?r = (unat (clock h) div unat ?d) mod 2 ^ 32"
    by (simp add: unsigned_ucast_eq unat_div take_bit_eq_mod)
  moreover have "unat ?r' = (unat (clock h) div unat ?d + 1) mod 2 ^ 32"
    using quot_step [OF d step] by (simp add: unsigned_ucast_eq take_bit_eq_mod)
  ultimately have "?r' = ?r + 1"
    by (rule u32_succ)
  with r r' show ?thesis by simp
qed

text \<open>The theorem at Darwin's constant: 1000 more ticks, one more millisecond.\<close>

theorem sys_now_resolution_witness:
  "0 < unat (1000000 :: clock_t) \<and> 1000 dvd unat (1000000 :: clock_t) \<and>
   unat (42999 :: clock_t) = unat (41999 :: clock_t) + unat (1000000 :: clock_t) div 1000 \<and>
   sys_now \<lparr>clock = 41999, CLOCKS_PER_SEC = 1000000\<rparr> = Inr 41 \<and>
   sys_now \<lparr>clock = 42999, CLOCKS_PER_SEC = 1000000\<rparr> = Inr 42"
  using sys_now_resolution [of "\<lparr>clock = 41999, CLOCKS_PER_SEC = 1000000\<rparr>"
      "\<lparr>clock = 42999, CLOCKS_PER_SEC = 1000000\<rparr>"]
  by (simp add: sys_now_def)

text \<open>
  C10. \<open>sys_now\<close> is deterministic: on two hosts that agree on the value of the counter
  and on \<open>CLOCKS_PER_SEC\<close>, whatever the rest of their state, it gives the same result.
\<close>

theorem sys_now_deterministic:
  fixes h1 :: "'a host_scheme" and h2 :: "'b host_scheme"
  assumes "clock h1 = clock h2" and "CLOCKS_PER_SEC h1 = CLOCKS_PER_SEC h2"
  shows "sys_now h1 = sys_now h2"
  using assms by (simp add: sys_now_def Let_def)

text \<open>Two hosts that differ in the rest of their state, even in its type.\<close>

theorem sys_now_deterministic_witness:
  "sys_now \<lparr>clock = 5000, CLOCKS_PER_SEC = 1000000, \<dots> = True\<rparr> =
   sys_now \<lparr>clock = 5000, CLOCKS_PER_SEC = 1000000, \<dots> = [1::nat, 2]\<rparr>"
  using sys_now_deterministic [of "\<lparr>clock = 5000, CLOCKS_PER_SEC = 1000000, \<dots> = True\<rparr>"
      "\<lparr>clock = 5000, CLOCKS_PER_SEC = 1000000, \<dots> = [1::nat, 2]\<rparr>"]
  by simp


section \<open>The initialization hook \<open>sys_init\<close>\<close>

lemma sys_init_times_eq: "sys_init_times n s = Inr s"
  by (induction n) (simp_all add: sys_init_def)

lemma run_without_sys_init:
  "run (filter (\<lambda>e. e \<noteq> Call_sys_init) es) h = run es h"
proof (induction es h rule: run.induct)
  case (1 h)
  show ?case by simp
next
  case (2 es h)
  then show ?case by (simp add: sys_init_def)
next
  case (3 es h)
  then show ?case by (simp split: sum.splits)
next
  case (4 c es h)
  then show ?case by simp
qed

text \<open>
  C7. \<open>sys_init\<close> has no effect: called in any state \<open>s\<close>, it ends in the state \<open>s\<close>,
  every component unchanged.
\<close>

theorem sys_init_no_effect: "sys_init s = Inr s"
  by (simp add: sys_init_def)

text \<open>
  C8. \<open>sys_init\<close> takes no argument and returns no value (its model maps a state to a
  state and nothing else), and no call of it, in whatever state, raises an error.
\<close>

theorem sys_init_no_error: "sys_init s \<noteq> Inl e"
  by (simp add: sys_init_def)

text \<open>
  C9. \<open>sys_init\<close> is idempotent: \<open>n \<ge> 1\<close> calls in a row are the same as one call, and
  a sequence of calls gives the same \<open>sys_now\<close> readings with its \<open>sys_init\<close> calls as
  without them.
\<close>

theorem sys_init_idempotent:
  "(1 \<le> n \<longrightarrow> sys_init_times n s = sys_init s) \<and>
   run es h = run (filter (\<lambda>e. e \<noteq> Call_sys_init) es) h"
  by (simp add: sys_init_times_eq sys_init_def run_without_sys_init)

text \<open>
  Three calls against one, and a run of two readings with three \<open>sys_init\<close> calls
  among them.
\<close>

theorem sys_init_idempotent_witness:
  "(1::nat) \<le> 3 \<and>
   sys_init_times 3 \<lparr>clock = 1999, CLOCKS_PER_SEC = 1000000\<rparr> =
     sys_init \<lparr>clock = 1999, CLOCKS_PER_SEC = 1000000\<rparr> \<and>
   run [Call_sys_init, Call_sys_now, Call_sys_init, Host_clock 5000, Call_sys_init, Call_sys_now]
       \<lparr>clock = 1999, CLOCKS_PER_SEC = 1000000\<rparr> = Inr [1, 5] \<and>
   run [Call_sys_now, Host_clock 5000, Call_sys_now]
       \<lparr>clock = 1999, CLOCKS_PER_SEC = 1000000\<rparr> = Inr [1, 5]"
  using sys_init_idempotent [of 3 "\<lparr>clock = 1999, CLOCKS_PER_SEC = 1000000\<rparr>"
      "[Call_sys_init, Call_sys_now, Call_sys_init, Host_clock 5000, Call_sys_init, Call_sys_now]"
      "\<lparr>clock = 1999, CLOCKS_PER_SEC = 1000000\<rparr>"]
  by (simp add: sys_now_def sys_init_def)

end
